theory Spec2Isabelle
  imports Main "HOL-Library.AList"
begin

section \<open>Bulk-action confirmation dialog (DataTableActionDialog)\<close>

text \<open>
  The dialog keeps two pieces of React state, \<open>open\<close> and \<open>loading\<close>, and reads
  the selected rows from the table instance on every render. The table library is
  an external collaborator; the part of it the dialog touches is modelled by its
  documented contract: a row is selected when the row-selection record maps its
  row id to \<open>true\<close>, \<open>getFilteredSelectedRowModel().rows\<close> lists the selected rows
  of the current row model in row order, and \<open>toggleAllRowsSelected(false)\<close>
  deletes the id of every row of the current row model from the record.
\<close>

record row =
  row_id :: string
  original_id :: string

text \<open>The two diagnostic channels the dialog writes to: \<open>logger.info\<close> and \<open>console.error\<close>.\<close>

datatype log_entry =
    LoggerInfo string "string list"
  | ConsoleError string string

text \<open>How the promise returned by the caller-supplied \<open>onConfirm\<close> settles.\<close>

datatype outcome = Resolved | Rejected string

record dialog_state =
  dlg_open :: bool
  loading :: bool
  rows :: "row list"
  rowSelection :: "(string \<times> bool) list"
  outstanding :: nat
  invocations :: "string list list"
  diagnostics :: "log_entry list"

definition isRowSelected :: "(string \<times> bool) list \<Rightarrow> row \<Rightarrow> bool" where
  "isRowSelected sel r = (map_of sel (row_id r) = Some True)"

definition selectedRows :: "dialog_state \<Rightarrow> row list" where
  "selectedRows s = filter (isRowSelected (rowSelection s)) (rows s)"

definition selectedCount :: "dialog_state \<Rightarrow> nat" where
  "selectedCount s = length (selectedRows s)"

definition selectedIds :: "dialog_state \<Rightarrow> string list" where
  "selectedIds s = map original_id (selectedRows s)"

definition toggleAllRowsSelected_false :: "dialog_state \<Rightarrow> dialog_state" where
  "toggleAllRowsSelected_false s =
     s\<lparr>rowSelection := filter (\<lambda>kv. fst kv \<notin> set (map row_id (rows s))) (rowSelection s)\<rparr>"

text \<open>\<open>disabled={selectedCount === 0}\<close> on the dialog trigger.\<close>

definition trigger_disabled :: "dialog_state \<Rightarrow> bool" where
  "trigger_disabled s = (selectedCount s = 0)"

text \<open>\<open>disabled={loading}\<close> on both the Cancel and the Confirm button.\<close>

definition cancel_disabled :: "dialog_state \<Rightarrow> bool" where
  "cancel_disabled s = loading s"

definition confirm_disabled :: "dialog_state \<Rightarrow> bool" where
  "confirm_disabled s = loading s"

definition handleOpenChange :: "bool \<Rightarrow> dialog_state \<Rightarrow> dialog_state" where
  "handleOpenChange b s =
     (if b
      then s\<lparr>diagnostics := diagnostics s @ [LoggerInfo ''Selected row IDs:'' (selectedIds s)],
             dlg_open := b\<rparr>
      else s\<lparr>dlg_open := b\<rparr>)"

text \<open>
  \<open>handleConfirm\<close> is an async function. Its body up to the \<open>await\<close> runs inside the
  click event; the rest runs when the promise settles. The two halves are
  \<open>handleConfirm_begin\<close> and \<open>handleConfirm_settle\<close>; \<open>outstanding\<close> counts the
  invocations of \<open>onConfirm\<close> that have not settled yet and \<open>invocations\<close> records
  the argument of every call.
\<close>

definition handleConfirm_begin :: "dialog_state \<Rightarrow> dialog_state" where
  "handleConfirm_begin s =
     s\<lparr>loading := True,
       diagnostics := diagnostics s @ [LoggerInfo ''Confirming action for IDs:'' (selectedIds s)],
       invocations := invocations s @ [selectedIds s],
       outstanding := Suc (outstanding s)\<rparr>"

definition handleConfirm_settle :: "outcome \<Rightarrow> dialog_state \<Rightarrow> dialog_state" where
  "handleConfirm_settle oc s =
     (let s1 = (case oc of
                  Resolved \<Rightarrow> toggleAllRowsSelected_false (s\<lparr>dlg_open := False\<rparr>)
                | Rejected err \<Rightarrow>
                    s\<lparr>diagnostics := diagnostics s @ [ConsoleError ''Action failed:'' err]\<rparr>)
      in s1\<lparr>loading := False, outstanding := outstanding s1 - 1\<rparr>)"

text \<open>The whole of \<open>handleConfirm\<close> for a promise that settles with \<open>oc\<close>.\<close>

definition handleConfirm :: "outcome \<Rightarrow> dialog_state \<Rightarrow> dialog_state" where
  "handleConfirm oc s = handleConfirm_settle oc (handleConfirm_begin s)"

text \<open>
  What the user and the environment can do to a mounted dialog. A click on a
  disabled button does nothing, and the dialog is opened through its trigger,
  which does nothing while it is disabled. \<open>SetRowSelection\<close> is the table's own
  \<open>onRowSelectionChange\<close> (a checkbox of a row), \<open>Settle\<close> the settling of the
  oldest outstanding promise.
\<close>

datatype dialog_event =
    OpenChange bool
  | ClickCancel
  | ClickConfirm
  | Settle outcome
  | SetRowSelection "(string \<times> bool) list"

fun dialog_step :: "dialog_event \<Rightarrow> dialog_state \<Rightarrow> dialog_state" where
  "dialog_step (OpenChange b) s =
     (if b \<and> trigger_disabled s then s else handleOpenChange b s)"
| "dialog_step ClickCancel s = (if cancel_disabled s then s else s\<lparr>dlg_open := False\<rparr>)"
| "dialog_step ClickConfirm s = (if confirm_disabled s then s else handleConfirm_begin s)"
| "dialog_step (Settle oc) s = (if outstanding s = 0 then s else handleConfirm_settle oc s)"
| "dialog_step (SetRowSelection sel) s = s\<lparr>rowSelection := sel\<rparr>"

fun dialog_run :: "dialog_event list \<Rightarrow> dialog_state \<Rightarrow> dialog_state" where
  "dialog_run [] s = s"
| "dialog_run (e # es) s = dialog_run es (dialog_step e s)"

text \<open>A freshly mounted dialog: \<open>useState(false)\<close> twice, nothing called yet.\<close>

definition dialog_mount :: "row list \<Rightarrow> (string \<times> bool) list \<Rightarrow> dialog_state" where
  "dialog_mount rs sel =
     \<lparr>dlg_open = False, loading = False, rows = rs, rowSelection = sel,
      outstanding = 0, invocations = [], diagnostics = []\<rparr>"

text \<open>The text and flags the dialog renders.\<close>

record dialog_view =
  view_open :: bool
  view_title :: string
  view_description :: string
  view_confirm_label :: string
  view_trigger_disabled :: bool
  view_cancel_disabled :: bool
  view_confirm_disabled :: bool

fun show_nat :: "nat \<Rightarrow> string" where
  "show_nat n = (if n < 10 then [char_of (48 + n)] else show_nat (n div 10) @ [char_of (48 + n mod 10)])"

declare show_nat.simps [simp del]

definition dialog_render :: "string \<Rightarrow> string \<Rightarrow> string \<Rightarrow> dialog_state \<Rightarrow> dialog_view" where
  "dialog_render title description confirmButtonText s =
     \<lparr>view_open = dlg_open s,
      view_title = title @ '' ('' @ show_nat (selectedCount s) @ '')'',
      view_description = description,
      view_confirm_label = (if loading s then ''Processing...'' else confirmButtonText),
      view_trigger_disabled = trigger_disabled s,
      view_cancel_disabled = cancel_disabled s,
      view_confirm_disabled = confirm_disabled s\<rparr>"

text \<open>
  The busy flag and the number of unsettled calls of \<open>onConfirm\<close> move together:
  the flag is set exactly while one call is outstanding, and there is never more
  than one.
\<close>

definition busy_inv :: "dialog_state \<Rightarrow> bool" where
  "busy_inv s = (outstanding s \<le> 1 \<and> loading s = (outstanding s = 1))"

section \<open>Server-side table (DataTableServerSide)\<close>

text \<open>
  JavaScript numbers are modelled as unbounded integers: pages, sizes and counts
  are integers far below \<open>2^53\<close>, where the arithmetic of the source is exact.
\<close>

record ServerSidePagination =
  page :: int
  pageSize :: int
  totalItems :: int
  totalPages :: int
  hasNextPage :: bool
  hasPreviousPage :: bool

text \<open>The table library's \<open>PaginationState\<close>: \<open>{pageIndex, pageSize}\<close>.\<close>

record PaginationState =
  pageIndex :: int
  state_pageSize :: int

text \<open>The library's \<open>SortingState\<close>: a sequence of \<open>{id, desc}\<close>.\<close>

type_synonym SortingState = "(string \<times> bool) list"

text \<open>The library's \<open>Updater<T>\<close>: either a new value or a function of the old one.\<close>

datatype 'a updater = Value 'a | Fn "'a \<Rightarrow> 'a"

record SearchColumn =
  column :: string
  label :: string

text \<open>
  The pagination part of the \<open>state\<close> option handed to \<open>useReactTable\<close>, and
  its \<open>pageCount\<close> option.
\<close>

definition table_pagination_state :: "ServerSidePagination \<Rightarrow> PaginationState" where
  "table_pagination_state pagination =
     \<lparr>pageIndex = page pagination - 1, state_pageSize = pageSize pagination\<rparr>"

definition table_pageCount :: "ServerSidePagination \<Rightarrow> int" where
  "table_pageCount pagination = totalPages pagination"

text \<open>
  The \<open>onPaginationChange\<close> option of the table: the value is the argument with
  which the caller's \<open>onPaginationChange\<close> is invoked.
\<close>

definition table_onPaginationChange ::
  "ServerSidePagination \<Rightarrow> PaginationState updater \<Rightarrow> PaginationState" where
  "table_onPaginationChange pagination upd =
     (let currentPagination =
            \<lparr>pageIndex = page pagination - 1, state_pageSize = pageSize pagination\<rparr>;
          newPagination = (case upd of Fn f \<Rightarrow> f currentPagination | Value v \<Rightarrow> v)
      in \<lparr>pageIndex = pageIndex newPagination, state_pageSize = state_pageSize newPagination\<rparr>)"

text \<open>
  The table component as a state machine. The state holds the props object
  \<open>pagination\<close> supplied by the caller, the two pieces of React state, and a log
  of every call made to a caller-supplied callback. The \<open>has_...\<close> flags say
  whether the caller supplied the optional callback (\<open>onPaginationChange\<close> is
  required).
\<close>

record table_state =
  pagination :: ServerSidePagination
  searchColumns :: "SearchColumn list"
  has_onSortingChange :: bool
  has_onSearchChange :: bool
  has_onFiltersChange :: bool
  internalSorting :: SortingState
  table_rowSelection :: "(string \<times> bool) list"
  calls_onPaginationChange :: "PaginationState list"
  calls_onSortingChange :: "SortingState list"
  calls_onSearchChange :: "(string \<times> string list) list"
  calls_onFiltersChange :: "(string \<times> string) list list"

definition table_onSortingChange :: "SortingState updater \<Rightarrow> table_state \<Rightarrow> table_state" where
  "table_onSortingChange upd s =
     (let newSorting = (case upd of Fn f \<Rightarrow> f (internalSorting s) | Value v \<Rightarrow> v);
          s1 = s\<lparr>internalSorting := newSorting\<rparr>
      in if has_onSortingChange s1
         then s1\<lparr>calls_onSortingChange := calls_onSortingChange s1 @ [newSorting]\<rparr>
         else s1)"

text \<open>
  \<open>handleSearchChange\<close> takes the search text only: a second argument passed by
  the search component is not a parameter of it. The column list it forwards is
  computed from the configured \<open>searchColumns\<close>.
\<close>

definition handleSearchChange :: "string \<Rightarrow> table_state \<Rightarrow> table_state" where
  "handleSearchChange v s =
     (let searchFields = map column (searchColumns s)
      in if has_onSearchChange s
         then s\<lparr>calls_onSearchChange := calls_onSearchChange s @ [(v, searchFields)]\<rparr>
         else s)"

definition handleFiltersChange :: "(string \<times> string) list \<Rightarrow> table_state \<Rightarrow> table_state" where
  "handleFiltersChange newFilters s =
     (if has_onFiltersChange s
      then s\<lparr>calls_onFiltersChange := calls_onFiltersChange s @ [newFilters]\<rparr>
      else s)"

text \<open>Every operation of the component: the callbacks it registers with the table
  and passes to its children.\<close>

datatype table_event =
    PaginationChange "PaginationState updater"
  | SortingChange "SortingState updater"
  | RowSelectionChange "(string \<times> bool) list updater"
  | SearchChange string "string list"
  | FiltersChange "(string \<times> string) list"

fun table_step :: "table_event \<Rightarrow> table_state \<Rightarrow> table_state" where
  "table_step (PaginationChange upd) s =
     s\<lparr>calls_onPaginationChange :=
         calls_onPaginationChange s @ [table_onPaginationChange (pagination s) upd]\<rparr>"
| "table_step (SortingChange upd) s = table_onSortingChange upd s"
| "table_step (RowSelectionChange upd) s =
     s\<lparr>table_rowSelection :=
         (case upd of Fn f \<Rightarrow> f (table_rowSelection s) | Value v \<Rightarrow> v)\<rparr>"
| "table_step (SearchChange v activeColumns) s = handleSearchChange v s"
| "table_step (FiltersChange newFilters) s = handleFiltersChange newFilters s"

fun table_run :: "table_event list \<Rightarrow> table_state \<Rightarrow> table_state" where
  "table_run [] s = s"
| "table_run (e # es) s = table_run es (table_step e s)"

text \<open>The state of a table that has just been mounted with the given props.\<close>

definition table_mount ::
  "ServerSidePagination \<Rightarrow> SearchColumn list \<Rightarrow> bool \<Rightarrow> bool \<Rightarrow> bool \<Rightarrow> SortingState
     \<Rightarrow> table_state" where
  "table_mount p columns sortingCb searchCb filtersCb sorting =
     \<lparr>pagination = p, searchColumns = columns,
      has_onSortingChange = sortingCb, has_onSearchChange = searchCb,
      has_onFiltersChange = filtersCb,
      internalSorting = sorting, table_rowSelection = [],
      calls_onPaginationChange = [], calls_onSortingChange = [],
      calls_onSearchChange = [], calls_onFiltersChange = []\<rparr>"

section \<open>The debounce hook (useDebounce)\<close>

text \<open>
  Modelled from the spec: the hook \<open>useDebounce\<close> is imported by the search and the
  filter component but is not among the sources. The spec describes it as a
  trailing-edge debounce with a fixed quiescence window of 300 time units: every
  observation replaces the pending value and restarts the countdown (equal values
  included), and only a countdown that runs to its end promotes its value to the
  stable value and notifies the consumer. Before any countdown ends the stable
  value is the initial one, and without an observation nothing is ever pending.

  Time is a natural number of time units. A pending countdown is the pair of its
  deadline and its value; the event loop may run a timer at its deadline or later,
  never earlier.
\<close>

definition quiescence_window :: nat where
  "quiescence_window = 300"

record 'v debounce =
  stable :: 'v
  pending :: "(nat \<times> 'v) option"

text \<open>Modelled from the spec: construction with the initial snapshot; nothing is pending.\<close>

definition debounce_init :: "'v \<Rightarrow> 'v debounce" where
  "debounce_init v = \<lparr>stable = v, pending = None\<rparr>"

text \<open>
  Modelled from the spec: \<open>observe(value)\<close> records the value as pending and
  restarts the countdown; a countdown in flight is replaced.
\<close>

definition observe :: "nat \<Rightarrow> 'v \<Rightarrow> 'v debounce \<Rightarrow> 'v debounce" where
  "observe now v d = d\<lparr>pending := Some (now + quiescence_window, v)\<rparr>"

text \<open>Modelled from the spec: \<open>currentStable()\<close>, the value the hook returns.\<close>

definition currentStable :: "'v debounce \<Rightarrow> 'v" where
  "currentStable d = stable d"

text \<open>Modelled from the spec: a countdown is due once the clock has reached its deadline.\<close>

definition due :: "nat \<Rightarrow> 'v debounce \<Rightarrow> bool" where
  "due now d = (case pending d of None \<Rightarrow> False | Some (deadline, v) \<Rightarrow> deadline \<le> now)"

text \<open>
  Modelled from the spec: the countdown ends, its value becomes the stable value
  and nothing is pending any more.
\<close>

definition settle :: "'v debounce \<Rightarrow> 'v debounce" where
  "settle d = (case pending d of None \<Rightarrow> d | Some (deadline, v) \<Rightarrow> \<lparr>stable = v, pending = None\<rparr>)"

section \<open>JavaScript objects and strings\<close>

text \<open>
  A \<open>Record<string, T>\<close> is an association list in property order. For property
  names that are not array indices JavaScript keeps insertion order: assigning to
  an existing property keeps its place, assigning to a new one appends it, and
  \<open>delete\<close> removes it. Strings are lists of 8-bit characters; the texts handled
  here (column ids, option values, formatted dates) are taken to be ASCII.
\<close>

type_synonym 'v js_object = "(string \<times> 'v) list"

definition obj_set :: "string \<Rightarrow> 'v \<Rightarrow> 'v js_object \<Rightarrow> 'v js_object" where
  "obj_set k v obj = AList.update k v obj"

definition obj_delete :: "string \<Rightarrow> 'v js_object \<Rightarrow> 'v js_object" where
  "obj_delete k obj = AList.delete k obj"

text \<open>Object spread \<open>{...a, ...b}\<close>: the properties of \<open>a\<close>, then those of \<open>b\<close> assigned in order.\<close>

definition obj_spread :: "'v js_object \<Rightarrow> 'v js_object \<Rightarrow> 'v js_object" where
  "obj_spread a b = foldl (\<lambda>acc kv. obj_set (fst kv) (snd kv) acc) a b"

text \<open>The white space and line terminators that \<open>String.prototype.trim\<close> strips (ASCII part).\<close>

definition js_whitespace :: "char \<Rightarrow> bool" where
  "js_whitespace c = (c \<in> set [CHR 0x09, CHR 0x0A, CHR 0x0B, CHR 0x0C, CHR 0x0D, CHR '' ''])"

definition js_trim :: "string \<Rightarrow> string" where
  "js_trim v = rev (dropWhile js_whitespace (rev (dropWhile js_whitespace v)))"

text \<open>Decimal digits of a number, and the same padded with zeros to two digits.\<close>

definition pad2 :: "nat \<Rightarrow> string" where
  "pad2 n = (if n < 10 then CHR ''0'' # show_nat n else show_nat n)"

definition hex_digit :: "nat \<Rightarrow> char" where
  "hex_digit n = (if n < 10 then char_of (48 + n) else char_of (87 + n))"

text \<open>
  \<open>JSON.stringify\<close> of a string: quotes around the escaped characters. The quote
  and the backslash are escaped, the control characters have their short escapes
  or the \<open>\u00XX\<close> form.
\<close>

definition json_escape :: "char \<Rightarrow> string" where
  "json_escape c =
     (if c = CHR 0x22 then [CHR 0x5C, CHR 0x22]
      else if c = CHR 0x5C then [CHR 0x5C, CHR 0x5C]
      else if c = CHR 0x08 then [CHR 0x5C, CHR ''b'']
      else if c = CHR 0x0C then [CHR 0x5C, CHR ''f'']
      else if c = CHR 0x0A then [CHR 0x5C, CHR ''n'']
      else if c = CHR 0x0D then [CHR 0x5C, CHR ''r'']
      else if c = CHR 0x09 then [CHR 0x5C, CHR ''t'']
      else if (of_char c :: nat) < 32
        then [CHR 0x5C, CHR ''u'', CHR ''0'', CHR ''0'',
              hex_digit ((of_char c :: nat) div 16), hex_digit ((of_char c :: nat) mod 16)]
      else [c])"

definition json_string :: "string \<Rightarrow> string" where
  "json_string v = CHR 0x22 # concat (map json_escape v) @ [CHR 0x22]"

fun join_comma :: "string list \<Rightarrow> string" where
  "join_comma [] = []"
| "join_comma [x] = x"
| "join_comma (x # y # ys) = x @ '','' @ join_comma (y # ys)"

text \<open>\<open>JSON.stringify\<close> of a record of strings: the members in property order.\<close>

definition JSON_stringify :: "string js_object \<Rightarrow> string" where
  "JSON_stringify obj =
     ''{'' @ join_comma (map (\<lambda>kv. json_string (fst kv) @ '':'' @ json_string (snd kv)) obj) @ ''}''"

section \<open>Filters (TableFilters)\<close>

text \<open>
  A \<open>Date\<close> is modelled by its calendar fields in the local time zone, which is
  what \<open>toLocaleDateString\<close> formats. For the locale \<open>en-CA\<close> the runtime's pattern
  is \<open>y-MM-dd\<close>: the year in decimal, then month and day with two digits each.
\<close>

record js_date =
  date_year :: nat
  date_month :: nat
  date_day :: nat

definition toLocaleDateString_enCA :: "js_date \<Rightarrow> string" where
  "toLocaleDateString_enCA d =
     show_nat (date_year d) @ ''-'' @ pad2 (date_month d) @ ''-'' @ pad2 (date_day d)"

text \<open>\<open>{ from: Date | undefined; to: Date | undefined }\<close>\<close>

record date_range =
  range_from :: "js_date option"
  range_to :: "js_date option"

text \<open>The value a combobox reports: \<open>string | string[]\<close>.\<close>

datatype combobox_value = Single string | Multiple "string list"

text \<open>
  \<open>table.getColumn(id)?.setFilterValue(value)\<close>: nothing happens for an id the
  table has no column for; otherwise the value is recorded as the filter value of
  that column.
\<close>

definition setFilterValue ::
  "string list \<Rightarrow> string \<Rightarrow> string \<Rightarrow> string js_object \<Rightarrow> string js_object" where
  "setFilterValue columns columnId v columnFilters =
     (if columnId \<in> set columns then obj_set columnId v columnFilters else columnFilters)"

record filters_state =
  onFiltersChange_given :: bool
  filters_table_columns :: "string list"
  filters_columnFilters :: "string js_object"
  localFilterValues :: "string js_object"
  localDateRangeValues :: "date_range js_object"
  filterValues_debounce :: "string js_object debounce"
  dateRangeValues_debounce :: "date_range js_object debounce"
  isUpdatingRef :: bool
  previousFiltersRef :: string
  timeouts :: "string js_object list"
  calls_filters :: "string js_object list"
  filters_clock :: nat

definition debouncedFilterValues :: "filters_state \<Rightarrow> string js_object" where
  "debouncedFilterValues s = currentStable (filterValues_debounce s)"

definition debouncedDateRangeValues :: "filters_state \<Rightarrow> date_range js_object" where
  "debouncedDateRangeValues s = currentStable (dateRangeValues_debounce s)"

text \<open>The body of the \<open>forEach\<close> over the date ranges, then the loop itself.\<close>

definition add_dateFilters :: "string js_object \<Rightarrow> string \<times> date_range \<Rightarrow> string js_object" where
  "add_dateFilters dateFilters entry =
     (case (range_from (snd entry), range_to (snd entry)) of
        (Some f, Some t) \<Rightarrow>
          obj_set (fst entry @ ''End'') (toLocaleDateString_enCA t)
            (obj_set (fst entry @ ''Start'') (toLocaleDateString_enCA f) dateFilters)
      | _ \<Rightarrow> dateFilters)"

definition dateFilters_of :: "date_range js_object \<Rightarrow> string js_object" where
  "dateFilters_of ranges = foldl add_dateFilters [] ranges"

definition allFilters_of :: "string js_object \<Rightarrow> date_range js_object \<Rightarrow> string js_object" where
  "allFilters_of filterValues ranges = obj_spread filterValues (dateFilters_of ranges)"

text \<open>
  \<open>handleFiltersUpdate\<close>: the callback scheduled with \<open>setTimeout(..., 0)\<close> is
  queued in \<open>timeouts\<close> with the mapping it has captured.
\<close>

definition handleFiltersUpdate :: "filters_state \<Rightarrow> filters_state" where
  "handleFiltersUpdate s =
     (if \<not> onFiltersChange_given s \<or> isUpdatingRef s then s
      else
        let allFilters = allFilters_of (debouncedFilterValues s) (debouncedDateRangeValues s);
            filtersString = JSON_stringify allFilters
        in if filtersString \<noteq> previousFiltersRef s
           then s\<lparr>isUpdatingRef := True,
                  previousFiltersRef := filtersString,
                  timeouts := timeouts s @ [allFilters]\<rparr>
           else s)"

text \<open>The scheduled callback: \<open>onFiltersChange(allFilters); isUpdatingRef.current = false\<close>.\<close>

definition run_timeout :: "filters_state \<Rightarrow> filters_state" where
  "run_timeout s =
     (case timeouts s of
        [] \<Rightarrow> s
      | allFilters # rest \<Rightarrow>
          s\<lparr>calls_filters := calls_filters s @ [allFilters],
            isUpdatingRef := False,
            timeouts := rest\<rparr>)"

definition handleFilterChange :: "string \<Rightarrow> combobox_value \<Rightarrow> filters_state \<Rightarrow> filters_state" where
  "handleFilterChange filterColumn v s =
     (let stringValue =
            (case v of
               Multiple vs \<Rightarrow> (case vs of [] \<Rightarrow> '''' | v0 # rest \<Rightarrow> v0)
             | Single v1 \<Rightarrow> v1)
      in if onFiltersChange_given s
         then
           let newFilters =
                 (if stringValue \<noteq> ''''
                  then obj_set filterColumn stringValue (localFilterValues s)
                  else obj_delete filterColumn (localFilterValues s))
           in s\<lparr>localFilterValues := newFilters,
                filterValues_debounce :=
                  observe (filters_clock s) newFilters (filterValues_debounce s)\<rparr>
         else
           s\<lparr>filters_columnFilters :=
               setFilterValue (filters_table_columns s) filterColumn stringValue
                 (filters_columnFilters s)\<rparr>)"

definition handleDateRangeChange :: "string \<Rightarrow> date_range \<Rightarrow> filters_state \<Rightarrow> filters_state" where
  "handleDateRangeChange filterColumn rng s =
     (if onFiltersChange_given s
      then
        let newRanges = obj_set filterColumn rng (localDateRangeValues s)
        in s\<lparr>localDateRangeValues := newRanges,
             dateRangeValues_debounce :=
               observe (filters_clock s) newRanges (dateRangeValues_debounce s)\<rparr>
      else s)"

text \<open>
  What can happen to a mounted filter component. A timer event does nothing
  unless its countdown has reached the deadline; when it fires the debounced value
  changes, the component renders and the effect calls \<open>handleFiltersUpdate\<close>.
  \<open>Rerender\<close> is a render caused by the parent, which hands over a new
  \<open>onFiltersChange\<close> closure, so the effect runs as well. \<open>RunTimeout\<close> runs the
  oldest callback scheduled with \<open>setTimeout\<close>, \<open>Cleanup\<close> is the cleanup effect.
\<close>

datatype filters_event =
    FilterChange string combobox_value
  | DateRangeChange string date_range
  | FiltersAdvance nat
  | FireFilterTimer
  | FireDateTimer
  | Rerender
  | RunTimeout
  | Cleanup

fun filters_step :: "filters_event \<Rightarrow> filters_state \<Rightarrow> filters_state" where
  "filters_step (FilterChange c v) s = handleFilterChange c v s"
| "filters_step (DateRangeChange c r) s = handleDateRangeChange c r s"
| "filters_step (FiltersAdvance d) s = s\<lparr>filters_clock := filters_clock s + d\<rparr>"
| "filters_step FireFilterTimer s =
     (if due (filters_clock s) (filterValues_debounce s)
      then handleFiltersUpdate (s\<lparr>filterValues_debounce := settle (filterValues_debounce s)\<rparr>)
      else s)"
| "filters_step FireDateTimer s =
     (if due (filters_clock s) (dateRangeValues_debounce s)
      then handleFiltersUpdate (s\<lparr>dateRangeValues_debounce := settle (dateRangeValues_debounce s)\<rparr>)
      else s)"
| "filters_step Rerender s = handleFiltersUpdate s"
| "filters_step RunTimeout s = run_timeout s"
| "filters_step Cleanup s = s\<lparr>isUpdatingRef := False\<rparr>"

fun filters_run :: "filters_event list \<Rightarrow> filters_state \<Rightarrow> filters_state" where
  "filters_run [] s = s"
| "filters_run (e # es) s = filters_run es (filters_step e s)"

text \<open>Mounting: the initial React state and refs, then the first run of the effect.\<close>

definition filters_mount :: "bool \<Rightarrow> string list \<Rightarrow> filters_state" where
  "filters_mount given columns =
     handleFiltersUpdate
       \<lparr>onFiltersChange_given = given,
        filters_table_columns = columns,
        filters_columnFilters = [],
        localFilterValues = [],
        localDateRangeValues = [],
        filterValues_debounce = debounce_init [],
        dateRangeValues_debounce = debounce_init [],
        isUpdatingRef = False,
        previousFiltersRef = '''',
        timeouts = [],
        calls_filters = [],
        filters_clock = 0\<rparr>"

text \<open>
  The mappings in the order in which they are handed to \<open>onFiltersChange\<close>: those
  already emitted, then those still waiting in a scheduled callback.
\<close>

definition emission_chain :: "filters_state \<Rightarrow> string js_object list" where
  "emission_chain s = calls_filters s @ timeouts s"

definition json_differs :: "string js_object \<Rightarrow> string js_object \<Rightarrow> bool" where
  "json_differs a b = (JSON_stringify a \<noteq> JSON_stringify b)"

definition dedupe_inv :: "filters_state \<Rightarrow> bool" where
  "dedupe_inv s =
     (successively json_differs (emission_chain s) \<and>
      previousFiltersRef s =
        (if emission_chain s = [] then '''' else JSON_stringify (last (emission_chain s))))"

text \<open>
  The flattening of one date range as the spec words it: a range with both bounds
  gives the two entries \<open><column>Start\<close> and \<open><column>End\<close>, any other range none.
\<close>

definition date_entries :: "string \<times> date_range \<Rightarrow> string js_object" where
  "date_entries entry =
     (case (range_from (snd entry), range_to (snd entry)) of
        (Some f, Some t) \<Rightarrow>
          [(fst entry @ ''Start'', toLocaleDateString_enCA f),
           (fst entry @ ''End'', toLocaleDateString_enCA t)]
      | _ \<Rightarrow> [])"

text \<open>
  The form \<open>YYYY-MM-DD\<close>: ten characters, hyphens at the fifth and the eighth
  place, decimal digits elsewhere. A date of the Gregorian calendar with a
  four-digit year is what a date picker delivers.
\<close>

definition is_digit :: "char \<Rightarrow> bool" where
  "is_digit c = (48 \<le> (of_char c :: nat) \<and> (of_char c :: nat) \<le> 57)"

definition is_YYYY_MM_DD :: "string \<Rightarrow> bool" where
  "is_YYYY_MM_DD str =
     (length str = 10 \<and> str ! 4 = CHR ''-'' \<and> str ! 7 = CHR ''-'' \<and>
      list_all is_digit (take 4 str @ take 2 (drop 5 str) @ drop 8 str))"

definition four_digit_date :: "js_date \<Rightarrow> bool" where
  "four_digit_date d =
     (1000 \<le> date_year d \<and> date_year d \<le> 9999 \<and>
      1 \<le> date_month d \<and> date_month d \<le> 12 \<and>
      1 \<le> date_day d \<and> date_day d \<le> 31)"

text \<open>
  The date ranges held by the component are records: no column occurs twice,
  neither in the local state nor in the stable or the pending value of its
  debounce.
\<close>

definition ranges_inv :: "filters_state \<Rightarrow> bool" where
  "ranges_inv s =
     (distinct (map fst (localDateRangeValues s)) \<and>
      distinct (map fst (stable (dateRangeValues_debounce s))) \<and>
      distinct (map fst (case pending (dateRangeValues_debounce s) of
                           None \<Rightarrow> [] | Some (deadline, v) \<Rightarrow> v)))"

section \<open>Search (DataTableSearch)\<close>

text \<open>
  The state of a mounted search component: its props (\<open>searchColumns\<close>, whether
  \<open>onSearchChange\<close> was supplied, the table), its three pieces of React state, the
  debounce of \<open>searchFilters\<close>, a clock, and the log of every call of
  \<open>onSearchChange\<close> with the time at which it was made.
\<close>

record search_state =
  search_columns :: "SearchColumn list"
  onSearchChange_given :: bool
  search_table_columns :: "string list"
  search_columnFilters :: "string js_object"
  searchFilters :: "string js_object"
  activeSelectedIndexes :: "nat list"
  globalSearch :: string
  searchFilters_debounce :: "string js_object debounce"
  calls_search :: "(nat \<times> string \<times> string list) list"
  search_clock :: nat

definition debouncedSearchFilters :: "search_state \<Rightarrow> string js_object" where
  "debouncedSearchFilters s = currentStable (searchFilters_debounce s)"

text \<open>\<open>searchColumns.filter((_, index) => activeSelectedIndexes.includes(index))\<close>\<close>

definition active_search_columns :: "search_state \<Rightarrow> SearchColumn list" where
  "active_search_columns s =
     map fst (filter (\<lambda>ci. snd ci \<in> set (activeSelectedIndexes s))
                (zip (search_columns s) [0 ..< length (search_columns s)]))"

definition activeColumns :: "search_state \<Rightarrow> string list" where
  "activeColumns s = map column (active_search_columns s)"

text \<open>\<open>Object.values(filters).find((value) => value.trim() !== "") || ""\<close>\<close>

definition first_search_value :: "string js_object \<Rightarrow> string" where
  "first_search_value filters =
     (case find (\<lambda>v. js_trim v \<noteq> '''') (map snd filters) of None \<Rightarrow> '''' | Some v \<Rightarrow> v)"

text \<open>The effect with dependencies \<open>[debouncedSearchFilters, activeSelectedIndexes]\<close>.\<close>

definition search_effect :: "search_state \<Rightarrow> search_state" where
  "search_effect s =
     (if onSearchChange_given s
      then s\<lparr>calls_search := calls_search s @
               [(search_clock s, first_search_value (debouncedSearchFilters s), activeColumns s)]\<rparr>
      else s\<lparr>search_columnFilters :=
               foldl (\<lambda>acc kv. setFilterValue (search_table_columns s) (fst kv) (snd kv) acc)
                 (search_columnFilters s) (debouncedSearchFilters s)\<rparr>)"

text \<open>
  The handlers. A handler that replaces \<open>searchFilters\<close> by a new object makes the
  debounce hook observe the new object at the next render.
\<close>

definition handleSearchFilter :: "string \<Rightarrow> string \<Rightarrow> search_state \<Rightarrow> search_state" where
  "handleSearchFilter columnId v s =
     (let newFilters = obj_set columnId v (searchFilters s)
      in s\<lparr>searchFilters := newFilters,
           searchFilters_debounce :=
             observe (search_clock s) newFilters (searchFilters_debounce s)\<rparr>)"

definition handleClearSearch :: "search_state \<Rightarrow> search_state" where
  "handleClearSearch s =
     (let s1 = s\<lparr>searchFilters := [], globalSearch := '''',
                 searchFilters_debounce := observe (search_clock s) [] (searchFilters_debounce s)\<rparr>
      in if onSearchChange_given s
         then s1\<lparr>calls_search := calls_search s1 @ [(search_clock s, '''', [])]\<rparr>
         else s1\<lparr>search_columnFilters :=
                  foldl (\<lambda>acc col. setFilterValue (search_table_columns s) (column col) '''' acc)
                    (search_columnFilters s) (search_columns s)\<rparr>)"

definition handleCheckboxChange :: "nat \<Rightarrow> search_state \<Rightarrow> search_state" where
  "handleCheckboxChange index s =
     s\<lparr>activeSelectedIndexes :=
         (if index \<in> set (activeSelectedIndexes s)
          then filter (\<lambda>i. i \<noteq> index) (activeSelectedIndexes s)
          else activeSelectedIndexes s @ [index])\<rparr>"

text \<open>The clear button is rendered when some column is active, and is disabled
  when there is nothing to clear.\<close>

definition clear_available :: "search_state \<Rightarrow> bool" where
  "clear_available s =
     (search_columns s \<noteq> [] \<and> activeSelectedIndexes s \<noteq> [] \<and>
      \<not> (searchFilters s = [] \<and> globalSearch s = ''''))"

text \<open>
  What can happen to a mounted search component: typing into the input of an
  active column, a click on the clear button, a click on the checkbox of a
  column, the passing of time, the debounce timer being run by the event loop (it
  does nothing before its deadline), and a new \<open>searchValue\<close> prop. When the timer
  fires or the active indexes change, the effect runs.
\<close>

datatype search_event =
    Edit string string
  | Clear
  | Toggle nat
  | SearchAdvance nat
  | FireSearchTimer
  | SearchValueProp string

fun search_step :: "search_event \<Rightarrow> search_state \<Rightarrow> search_state" where
  "search_step (Edit columnId v) s =
     (if columnId \<in> set (activeColumns s) then handleSearchFilter columnId v s else s)"
| "search_step Clear s = (if clear_available s then handleClearSearch s else s)"
| "search_step (Toggle index) s =
     (if index < length (search_columns s) then search_effect (handleCheckboxChange index s) else s)"
| "search_step (SearchAdvance d) s = s\<lparr>search_clock := search_clock s + d\<rparr>"
| "search_step FireSearchTimer s =
     (if due (search_clock s) (searchFilters_debounce s)
      then search_effect (s\<lparr>searchFilters_debounce := settle (searchFilters_debounce s)\<rparr>)
      else s)"
| "search_step (SearchValueProp v) s = s\<lparr>globalSearch := v\<rparr>"

fun search_run :: "search_event list \<Rightarrow> search_state \<Rightarrow> search_state" where
  "search_run [] s = s"
| "search_run (e # es) s = search_run es (search_step e s)"

text \<open>Mounting: the initial state, then the first run of the effect.\<close>

definition search_mount ::
  "SearchColumn list \<Rightarrow> bool \<Rightarrow> string list \<Rightarrow> string \<Rightarrow> search_state" where
  "search_mount columns given table_columns searchValue =
     search_effect
       \<lparr>search_columns = columns,
        onSearchChange_given = given,
        search_table_columns = table_columns,
        search_columnFilters = [],
        searchFilters = [],
        activeSelectedIndexes = [0],
        globalSearch = searchValue,
        searchFilters_debounce = debounce_init [],
        calls_search = [],
        search_clock = 0\<rparr>"

text \<open>The events in which only time passes.\<close>

fun time_event :: "search_event \<Rightarrow> bool" where
  "time_event (SearchAdvance d) = True"
| "time_event FireSearchTimer = True"
| "time_event _ = False"

text \<open>
  The search component inside the server-side table: the table passes its
  \<open>handleSearchChange\<close> as \<open>onSearchChange\<close>, so every call logged by the search
  component is a \<open>SearchChange\<close> event of the table, in order.
\<close>

definition forward_search_calls ::
  "(nat \<times> string \<times> string list) list \<Rightarrow> table_state \<Rightarrow> table_state" where
  "forward_search_calls calls ts =
     table_run (map (\<lambda>call. SearchChange (fst (snd call)) (snd (snd call))) calls) ts"

text \<open>
  A call of \<open>onSearchChange\<close> that is gated by a countdown: made at its deadline
  or later, with the given search text and column ids.
\<close>

definition gated :: "nat \<Rightarrow> string \<Rightarrow> string list \<Rightarrow> nat \<times> string \<times> string list \<Rightarrow> bool" where
  "gated deadline txt columns call =
     (deadline \<le> fst call \<and> fst (snd call) = txt \<and> snd (snd call) = columns)"

section \<open>Properties of the bulk-action dialog\<close>

lemma map_of_filter_key:
  "map_of (filter (\<lambda>kv. fst kv \<notin> A) xs) k = (if k \<in> A then None else map_of xs k)"
  by (induction xs) auto

lemma selectedRows_toggleAll: "selectedRows (toggleAllRowsSelected_false s) = []"
  by (auto simp: selectedRows_def toggleAllRowsSelected_false_def isRowSelected_def
        map_of_filter_key filter_empty_conv)

text \<open>
  C2. When the caller's action resolves, the continuation of \<open>handleConfirm\<close>
  leaves no selected row (so the list of selected identifiers is empty and the
  trigger is disabled again) and the dialog closed. This holds for the
  continuation started in any state, hence whatever happened while the action was
  outstanding, and in particular for \<open>handleConfirm\<close> run as a whole.
\<close>

theorem confirm_success_clears_selection_and_closes:
  "selectedRows (handleConfirm_settle Resolved s) = [] \<and>
   selectedIds (handleConfirm_settle Resolved s) = [] \<and>
   dlg_open (handleConfirm_settle Resolved s) = False \<and>
   selectedRows (handleConfirm Resolved s) = [] \<and>
   dlg_open (handleConfirm Resolved s) = False \<and>
   trigger_disabled (handleConfirm Resolved s)"
proof -
  have sel: "selectedRows (handleConfirm_settle Resolved t) = []" for t
    using selectedRows_toggleAll [of "t\<lparr>dlg_open := False\<rparr>"]
    by (simp add: handleConfirm_settle_def selectedRows_def Let_def)
  have op: "dlg_open (handleConfirm_settle Resolved t) = False" for t
    by (simp add: handleConfirm_settle_def toggleAllRowsSelected_false_def Let_def)
  show ?thesis
    by (simp add: sel op handleConfirm_def selectedIds_def trigger_disabled_def selectedCount_def)
qed

text \<open>
  C3. When the caller's action rejects, the continuation changes nothing but the
  busy flag (cleared), the count of outstanding calls and the diagnostic log, which
  gains one \<open>console.error\<close> entry carrying the error. The row selection, the
  selected identifiers and the open flag are as before; \<open>onConfirm\<close> has been
  called exactly once (no retry); and the rendered dialog after the failure is the
  one rendered before the click, so the error is not part of any text shown to the
  user.
\<close>

theorem confirm_failure_keeps_state:
  "handleConfirm_settle (Rejected err) s =
     s\<lparr>diagnostics := diagnostics s @ [ConsoleError ''Action failed:'' err],
       loading := False, outstanding := outstanding s - 1\<rparr> \<and>
   rowSelection (handleConfirm (Rejected err) s) = rowSelection s \<and>
   selectedIds (handleConfirm (Rejected err) s) = selectedIds s \<and>
   dlg_open (handleConfirm (Rejected err) s) = dlg_open s \<and>
   invocations (handleConfirm (Rejected err) s) = invocations s @ [selectedIds s] \<and>
   diagnostics (handleConfirm (Rejected err) s) =
     diagnostics s @ [LoggerInfo ''Confirming action for IDs:'' (selectedIds s),
                      ConsoleError ''Action failed:'' err] \<and>
   dialog_render title description confirmButtonText
       (handleConfirm (Rejected err) (s\<lparr>loading := False\<rparr>)) =
     dialog_render title description confirmButtonText (s\<lparr>loading := False\<rparr>)"
  by (simp add: handleConfirm_settle_def handleConfirm_def handleConfirm_begin_def Let_def
        selectedIds_def selectedRows_def dialog_render_def trigger_disabled_def
        cancel_disabled_def confirm_disabled_def selectedCount_def)

text \<open>
  C7. The trigger is disabled exactly when the set of selected row identifiers is
  empty, that is when the selected-row count is zero; it is enabled exactly when
  some row of the current row model is selected.
\<close>

theorem trigger_disabled_iff_no_selection:
  "trigger_disabled s = (set (selectedIds s) = {}) \<and>
   trigger_disabled s = (selectedCount s = 0) \<and>
   (\<not> trigger_disabled s) =
     (\<exists>r. r \<in> set (rows s) \<and> map_of (rowSelection s) (row_id r) = Some True)"
  by (auto simp: trigger_disabled_def selectedCount_def selectedIds_def selectedRows_def
        isRowSelected_def filter_empty_conv)

lemma busy_inv_step: "busy_inv s \<Longrightarrow> busy_inv (dialog_step e s)"
  by (cases e)
     (auto simp: busy_inv_def handleConfirm_begin_def handleConfirm_settle_def
        handleOpenChange_def confirm_disabled_def cancel_disabled_def
        toggleAllRowsSelected_false_def Let_def split: outcome.splits)

lemma busy_inv_run: "busy_inv s \<Longrightarrow> busy_inv (dialog_run es s)"
  by (induction es arbitrary: s) (auto intro: busy_inv_step)

lemma busy_inv_mount: "busy_inv (dialog_mount rs sel)"
  by (simp add: busy_inv_def dialog_mount_def)

text \<open>
  C8. After any sequence of events on a mounted dialog at most one invocation is
  outstanding, and the busy flag is set exactly while it is. The first half of
  \<open>handleConfirm\<close> sets the flag; with the flag set both buttons are disabled and
  a click on either changes nothing (so no second call of \<open>onConfirm\<close> starts);
  and the second half clears the flag whether the action resolved or rejected.
\<close>

theorem busy_flag_mutual_exclusion:
  "outstanding (dialog_run es (dialog_mount rs sel)) \<le> 1 \<and>
   loading (dialog_run es (dialog_mount rs sel)) =
     (outstanding (dialog_run es (dialog_mount rs sel)) = 1) \<and>
   loading (handleConfirm_begin s) = True \<and>
   dialog_step ClickConfirm (s\<lparr>loading := True\<rparr>) = s\<lparr>loading := True\<rparr> \<and>
   dialog_step ClickCancel (s\<lparr>loading := True\<rparr>) = s\<lparr>loading := True\<rparr> \<and>
   confirm_disabled (s\<lparr>loading := True\<rparr>) \<and> cancel_disabled (s\<lparr>loading := True\<rparr>) \<and>
   loading (handleConfirm_settle oc s) = False \<and>
   loading (handleConfirm oc s) = False"
proof -
  have "busy_inv (dialog_run es (dialog_mount rs sel))"
    by (rule busy_inv_run [OF busy_inv_mount])
  moreover have "loading (handleConfirm_settle oc t) = False" for t
    by (simp add: handleConfirm_settle_def Let_def)
  ultimately show ?thesis
    by (simp add: busy_inv_def handleConfirm_begin_def confirm_disabled_def
          cancel_disabled_def handleConfirm_def)
qed

section \<open>Properties of the server-side table\<close>

text \<open>
  C4. For a pagination descriptor with one-based page \<open>p\<close> the table state holds
  the zero-based index \<open>p - 1\<close> (non-negative exactly when \<open>p \<ge> 1\<close>), and every
  page-change request is computed from the state with index \<open>p - 1\<close>: a functional
  updater is applied to it, a plain value is forwarded as it is, and the identity
  updater emits \<open>p - 1\<close>. Conversely the table state holds the index \<open>i\<close> exactly
  when the page of the descriptor is \<open>i + 1\<close>, and the two translations compose to
  the identity in both orders.
\<close>

theorem pagination_round_trip:
  "pageIndex (table_pagination_state p) = page p - 1 \<and>
   state_pageSize (table_pagination_state p) = pageSize p \<and>
   (1 \<le> page p) = (0 \<le> pageIndex (table_pagination_state p)) \<and>
   table_onPaginationChange p (Fn f) =
     \<lparr>pageIndex = pageIndex (f (table_pagination_state p)),
      state_pageSize = state_pageSize (f (table_pagination_state p))\<rparr> \<and>
   pageIndex (table_onPaginationChange p (Fn (\<lambda>old. old))) = page p - 1 \<and>
   table_onPaginationChange p (Value v) = v \<and>
   (pageIndex (table_pagination_state p) = i) = (page p = i + 1) \<and>
   pageIndex (table_pagination_state p) + 1 = page p \<and>
   pageIndex (table_pagination_state (p\<lparr>page := i + 1\<rparr>)) = i"
  by (auto simp: table_pagination_state_def table_onPaginationChange_def Let_def)
lemma pagination_table_step: "pagination (table_step e s) = pagination s"
  by (cases e)
     (simp_all add: table_onSortingChange_def handleSearchChange_def handleFiltersChange_def Let_def)

lemma pagination_table_run: "pagination (table_run es s) = pagination s"
  by (induction es arbitrary: s) (simp_all add: pagination_table_step)
text \<open>
  C9. No operation of the component changes the pagination descriptor it was
  given: after any event, and after any sequence of events, every field of the
  descriptor is what it was. A page change only appends the computed request to
  the calls of the caller's \<open>onPaginationChange\<close>; nothing else of the state
  changes.
\<close>

theorem pagination_descriptor_read_only:
  "pagination (table_run es s) = pagination s \<and>
   pagination (table_step e s) = pagination s \<and>
   table_step (PaginationChange upd) s =
     s\<lparr>calls_onPaginationChange :=
         calls_onPaginationChange s @ [table_onPaginationChange (pagination s) upd]\<rparr>"
  by (simp add: pagination_table_run pagination_table_step)

section \<open>Properties of the filters\<close>

subsection \<open>Flattening of date ranges\<close>

lemma update_fresh: "k \<notin> fst ` set xs \<Longrightarrow> AList.update k v xs = xs @ [(k, v)]"
  by (induction xs) auto

lemma Start_neq_End: "c @ ''Start'' \<noteq> c' @ ''End''"
proof
  assume "c @ ''Start'' = c' @ ''End''"
  then have "last (c @ ''Start'') = last (c' @ ''End'')" by simp
  then show False by simp
qed

lemma keys_date_entries:
  "fst ` set (date_entries (c, r)) \<subseteq> {c @ ''Start'', c @ ''End''}"
  by (auto simp: date_entries_def split: option.splits)

lemma add_dateFilters_fresh:
  assumes "c @ ''Start'' \<notin> fst ` set acc" and "c @ ''End'' \<notin> fst ` set acc"
  shows "add_dateFilters acc (c, r) = acc @ date_entries (c, r)"
proof (cases "range_from r")
  case None
  then show ?thesis by (simp add: add_dateFilters_def date_entries_def)
next
  case (Some f)
  note from_set = Some
  show ?thesis
  proof (cases "range_to r")
    case None
    with from_set show ?thesis by (simp add: add_dateFilters_def date_entries_def)
  next
    case (Some t)
    have fresh: "c @ ''End'' \<notin> fst ` set (acc @ [(c @ ''Start'', toLocaleDateString_enCA f)])"
      using assms(2) by simp
    show ?thesis
      using from_set Some assms(1) fresh
      by (simp add: add_dateFilters_def date_entries_def obj_set_def update_fresh)
  qed
qed

lemma foldl_add_dateFilters:
  "distinct (map fst rs) \<Longrightarrow>
   (\<And>c. c \<in> fst ` set rs \<Longrightarrow> c @ ''Start'' \<notin> fst ` set acc \<and> c @ ''End'' \<notin> fst ` set acc) \<Longrightarrow>
   foldl add_dateFilters acc rs = acc @ concat (map date_entries rs)"
proof (induction rs arbitrary: acc)
  case Nil
  then show ?case by simp
next
  case (Cons e rs)
  obtain c r where e: "e = (c, r)" by (cases e)
  have step: "add_dateFilters acc (c, r) = acc @ date_entries (c, r)"
    using Cons.prems(2) [of c] e by (intro add_dateFilters_fresh) simp_all
  have d: "distinct (map fst rs)" and cnotin: "c \<notin> fst ` set rs"
    using Cons.prems(1) e by simp_all
  have fresh: "c' @ ''Start'' \<notin> fst ` set (acc @ date_entries (c, r)) \<and>
               c' @ ''End'' \<notin> fst ` set (acc @ date_entries (c, r))"
    if "c' \<in> fst ` set rs" for c'
  proof -
    have ne: "c' \<noteq> c" using that cnotin by auto
    have old: "c' @ ''Start'' \<notin> fst ` set acc \<and> c' @ ''End'' \<notin> fst ` set acc"
      using Cons.prems(2) [of c'] that by simp
    have new: "c' @ ''Start'' \<notin> {c @ ''Start'', c @ ''End''} \<and>
               c' @ ''End'' \<notin> {c @ ''Start'', c @ ''End''}"
      using ne Start_neq_End [of c' c] Start_neq_End [of c c'] by auto
    show ?thesis using old new keys_date_entries [of c r] by auto
  qed
  show ?case
    using Cons.IH [OF d, of "acc @ date_entries (c, r)"] fresh step e by simp
qed

lemma dateFilters_of_flatten:
  "distinct (map fst rs) \<Longrightarrow> dateFilters_of rs = concat (map date_entries rs)"
  using foldl_add_dateFilters [of rs "[]"] by (simp add: dateFilters_of_def)

lemma distinct_foldl_add_dateFilters:
  "distinct (map fst acc) \<Longrightarrow> distinct (map fst (foldl add_dateFilters acc rs))"
proof (induction rs arbitrary: acc)
  case Nil
  then show ?case by simp
next
  case (Cons e rs)
  have "distinct (map fst (add_dateFilters acc e))"
    using Cons.prems
    by (auto simp: add_dateFilters_def obj_set_def distinct_update split: option.splits)
  then show ?case using Cons.IH by simp
qed

lemma distinct_dateFilters_of: "distinct (map fst (dateFilters_of rs))"
  by (simp add: dateFilters_of_def distinct_foldl_add_dateFilters)

lemma map_of_obj_spread: "map_of (obj_spread a b) = map_of a ++ map_of (rev b)"
  unfolding obj_spread_def obj_set_def
proof (induction b arbitrary: a)
  case Nil
  then show ?case by simp
next
  case (Cons x xs)
  obtain k v where x: "x = (k, v)" by (cases x)
  have "(map_of (AList.update k v a) ++ map_of (rev xs)) k' =
        (map_of a ++ map_of (rev ((k, v) # xs))) k'" for k'
    by (simp add: update_conv' map_add_def split: option.splits)
  then show ?case using x by (simp add: Cons.IH fun_eq_iff)
qed

lemma calendar_show_nat_digits: "list_all is_digit (show_nat n)"
proof (induction n rule: show_nat.induct)
  case (1 n)
  show ?case
  proof (cases "n < 10")
    case True
    then show ?thesis by (subst show_nat.simps) (simp add: is_digit_def)
  next
    case False
    have "n mod 10 < 10" by simp
    then have "is_digit (char_of (48 + n mod 10))"
      by (simp add: is_digit_def)
    with False 1 show ?thesis by (subst show_nat.simps) simp
  qed
qed

lemma length_show_nat_1: "n < 10 \<Longrightarrow> length (show_nat n) = 1"
  by (subst show_nat.simps) simp

lemma length_show_nat_2: "10 \<le> n \<Longrightarrow> n < 100 \<Longrightarrow> length (show_nat n) = 2"
  by (subst show_nat.simps) (simp add: length_show_nat_1)

lemma length_show_nat_3: "100 \<le> n \<Longrightarrow> n < 1000 \<Longrightarrow> length (show_nat n) = 3"
  by (subst show_nat.simps) (simp add: length_show_nat_2)

lemma length_show_nat_4: "1000 \<le> n \<Longrightarrow> n < 10000 \<Longrightarrow> length (show_nat n) = 4"
  by (subst show_nat.simps) (simp add: length_show_nat_3)

lemma pad2_shape: "n < 100 \<Longrightarrow> length (pad2 n) = 2 \<and> list_all is_digit (pad2 n)"
  by (cases "n < 10")
     (simp_all add: pad2_def length_show_nat_1 length_show_nat_2 calendar_show_nat_digits is_digit_def)

lemma enCA_shape: "four_digit_date d \<Longrightarrow> is_YYYY_MM_DD (toLocaleDateString_enCA d)"
proof -
  assume a: "four_digit_date d"
  define y where "y = show_nat (date_year d)"
  define m where "m = pad2 (date_month d)"
  define dd where "dd = pad2 (date_day d)"
  have y: "length y = 4" "list_all is_digit y"
    using a by (simp_all add: y_def four_digit_date_def length_show_nat_4 calendar_show_nat_digits)
  have m: "length m = 2" "list_all is_digit m"
    using a pad2_shape [of "date_month d"] by (simp_all add: m_def four_digit_date_def)
  have dd: "length dd = 2" "list_all is_digit dd"
    using a pad2_shape [of "date_day d"] by (simp_all add: dd_def four_digit_date_def)
  have "toLocaleDateString_enCA d = y @ ''-'' @ m @ ''-'' @ dd"
    by (simp add: toLocaleDateString_enCA_def y_def m_def dd_def)
  then show ?thesis
    using y m dd by (simp add: is_YYYY_MM_DD_def nth_append)
qed

lemma date_ranges_flatten_lookup:
  assumes "distinct (map fst ranges)" and "(c, r) \<in> set ranges"
    and "range_from r = Some f" and "range_to r = Some t"
  shows "dateFilters_of ranges = concat (map date_entries ranges) \<and>
    date_entries (c, r) =
      [(c @ ''Start'', toLocaleDateString_enCA f), (c @ ''End'', toLocaleDateString_enCA t)] \<and>
    map_of (allFilters_of filterValues ranges) (c @ ''Start'') = Some (toLocaleDateString_enCA f) \<and>
    map_of (allFilters_of filterValues ranges) (c @ ''End'') = Some (toLocaleDateString_enCA t) \<and>
    allFilters_of [] [(c, r)] =
      [(c @ ''Start'', toLocaleDateString_enCA f), (c @ ''End'', toLocaleDateString_enCA t)] \<and>
    (four_digit_date f \<longrightarrow> is_YYYY_MM_DD (toLocaleDateString_enCA f)) \<and>
    (four_digit_date t \<longrightarrow> is_YYYY_MM_DD (toLocaleDateString_enCA t))"
proof -
  have flat: "dateFilters_of ranges = concat (map date_entries ranges)"
    by (rule dateFilters_of_flatten [OF assms(1)])
  have entries: "date_entries (c, r) =
      [(c @ ''Start'', toLocaleDateString_enCA f), (c @ ''End'', toLocaleDateString_enCA t)]"
    using assms(3,4) by (simp add: date_entries_def)
  have mem: "set (date_entries (c, r)) \<subseteq> set (dateFilters_of ranges)"
    using assms(2) flat by auto
  have dist: "distinct (map fst (rev (dateFilters_of ranges)))"
    using distinct_dateFilters_of [of ranges] by (simp add: rev_map [symmetric])
  have look: "map_of (rev (dateFilters_of ranges)) k = Some v"
    if "(k, v) \<in> set (date_entries (c, r))" for k v
    using that mem dist by (intro map_of_is_SomeI) auto
  have all: "map_of (allFilters_of filterValues ranges) k = Some v"
    if "(k, v) \<in> set (date_entries (c, r))" for k v
    using look [OF that] by (simp add: allFilters_of_def map_of_obj_spread)
  have single: "allFilters_of [] [(c, r)] = date_entries (c, r)"
    using entries Start_neq_End [of c c]
    by (simp add: allFilters_of_def dateFilters_of_def add_dateFilters_def assms(3,4)
          obj_spread_def obj_set_def)
  show ?thesis
    using flat entries all [of "c @ ''Start''" "toLocaleDateString_enCA f"]
      all [of "c @ ''End''" "toLocaleDateString_enCA t"] single enCA_shape
    by simp
qed

lemma ranges_inv_update: "ranges_inv (handleFiltersUpdate s) = ranges_inv s"
  by (simp add: ranges_inv_def handleFiltersUpdate_def Let_def)

lemma ranges_inv_settle:
  "ranges_inv s \<Longrightarrow>
   ranges_inv (s\<lparr>dateRangeValues_debounce := settle (dateRangeValues_debounce s)\<rparr>)"
  by (auto simp: ranges_inv_def settle_def split: option.splits)

lemma ranges_inv_step: "ranges_inv s \<Longrightarrow> ranges_inv (filters_step e s)"
proof (cases e)
  case (FilterChange c v)
  assume "ranges_inv s"
  then show ?thesis using FilterChange
    by (simp add: ranges_inv_def handleFilterChange_def Let_def)
next
  case (DateRangeChange c r)
  assume "ranges_inv s"
  then show ?thesis using DateRangeChange
    by (simp add: ranges_inv_def handleDateRangeChange_def Let_def observe_def obj_set_def
          distinct_update)
next
  case (FiltersAdvance d)
  assume "ranges_inv s"
  then show ?thesis using FiltersAdvance by (simp add: ranges_inv_def)
next
  case FireFilterTimer
  assume a: "ranges_inv s"
  then have "ranges_inv (s\<lparr>filterValues_debounce := settle (filterValues_debounce s)\<rparr>)"
    by (simp add: ranges_inv_def)
  then show ?thesis using FireFilterTimer a by (simp add: ranges_inv_update)
next
  case FireDateTimer
  assume a: "ranges_inv s"
  then show ?thesis using FireDateTimer ranges_inv_settle [OF a]
    by (simp add: ranges_inv_update)
next
  case Rerender
  assume "ranges_inv s"
  then show ?thesis using Rerender by (simp add: ranges_inv_update)
next
  case RunTimeout
  assume "ranges_inv s"
  then show ?thesis using RunTimeout
    by (simp add: ranges_inv_def run_timeout_def split: list.splits)
next
  case Cleanup
  assume "ranges_inv s"
  then show ?thesis using Cleanup by (simp add: ranges_inv_def)
qed

lemma ranges_inv_run: "ranges_inv s \<Longrightarrow> ranges_inv (filters_run es s)"
  by (induction es arbitrary: s) (simp_all add: ranges_inv_step)

lemma ranges_inv_mount: "ranges_inv (filters_mount given columns)"
  by (simp add: filters_mount_def ranges_inv_update) (simp add: ranges_inv_def debounce_init_def)

lemma emitted_after_update:
  assumes "onFiltersChange_given s" and "\<not> isUpdatingRef s" and "timeouts s = []"
    and "JSON_stringify (allFilters_of (debouncedFilterValues s) (debouncedDateRangeValues s))
           \<noteq> previousFiltersRef s"
  shows "calls_filters (run_timeout (handleFiltersUpdate s)) =
           calls_filters s @ [allFilters_of (debouncedFilterValues s) (debouncedDateRangeValues s)]"
  using assms by (simp add: handleFiltersUpdate_def run_timeout_def Let_def)
text \<open>
  C5, as the code has it. Let \<open>handleFiltersUpdate\<close> run in a state where it
  schedules an emission (a callback is supplied, no update is in flight, the
  serialisation differs from the previous one), let the debounced date ranges
  have one entry per column, and let the range of column \<open>c\<close> have both bounds.
  Then the mapping handed to \<open>onFiltersChange\<close> by the scheduled callback is the
  combined mapping; the loop flattens every complete range into exactly its two
  entries and contributes nothing else; in the emitted mapping, whatever the
  select filters are, the key \<open>cStart\<close> holds the lower bound and \<open>cEnd\<close> the
  upper bound, each formatted by \<open>toLocaleDateString("en-CA")\<close>; with no other
  filter the mapping is exactly these two entries. The formatted value has the
  form \<open>YYYY-MM-DD\<close> when the bound is a calendar date with a four-digit year.
  In every state a mounted component can reach, before or after its date timer
  has settled, the debounced date ranges do have one entry per column.
\<close>

theorem date_range_emitted_as_two_keys:
  assumes "onFiltersChange_given s" and "\<not> isUpdatingRef s" and "timeouts s = []"
    and "JSON_stringify (allFilters_of (debouncedFilterValues s) (debouncedDateRangeValues s))
           \<noteq> previousFiltersRef s"
    and "distinct (map fst (debouncedDateRangeValues s))"
    and "(c, r) \<in> set (debouncedDateRangeValues s)"
    and "range_from r = Some f" and "range_to r = Some t"
  shows "calls_filters (run_timeout (handleFiltersUpdate s)) =
      calls_filters s @ [allFilters_of (debouncedFilterValues s) (debouncedDateRangeValues s)] \<and>
    dateFilters_of (debouncedDateRangeValues s) =
      concat (map date_entries (debouncedDateRangeValues s)) \<and>
    date_entries (c, r) =
      [(c @ ''Start'', toLocaleDateString_enCA f), (c @ ''End'', toLocaleDateString_enCA t)] \<and>
    map_of (last (calls_filters (run_timeout (handleFiltersUpdate s)))) (c @ ''Start'') =
      Some (toLocaleDateString_enCA f) \<and>
    map_of (last (calls_filters (run_timeout (handleFiltersUpdate s)))) (c @ ''End'') =
      Some (toLocaleDateString_enCA t) \<and>
    allFilters_of [] [(c, r)] =
      [(c @ ''Start'', toLocaleDateString_enCA f), (c @ ''End'', toLocaleDateString_enCA t)] \<and>
    (four_digit_date f \<longrightarrow> is_YYYY_MM_DD (toLocaleDateString_enCA f)) \<and>
    (four_digit_date t \<longrightarrow> is_YYYY_MM_DD (toLocaleDateString_enCA t)) \<and>
    distinct (map fst (debouncedDateRangeValues (filters_run es (filters_mount given columns)))) \<and>
    distinct (map fst (debouncedDateRangeValues
      ((filters_run es (filters_mount given columns))
         \<lparr>dateRangeValues_debounce :=
            settle (dateRangeValues_debounce (filters_run es (filters_mount given columns)))\<rparr>)))"
proof -
  note em = emitted_after_update [OF assms(1-4)]
  note fl = date_ranges_flatten_lookup [OF assms(5-8), of "debouncedFilterValues s"]
  have inv: "ranges_inv (filters_run es (filters_mount given columns))"
    by (rule ranges_inv_run [OF ranges_inv_mount])
  have d1: "distinct (map fst (debouncedDateRangeValues (filters_run es (filters_mount given columns))))"
    using inv by (simp add: ranges_inv_def debouncedDateRangeValues_def currentStable_def)
  have d2: "distinct (map fst (debouncedDateRangeValues
      ((filters_run es (filters_mount given columns))
         \<lparr>dateRangeValues_debounce :=
            settle (dateRangeValues_debounce (filters_run es (filters_mount given columns)))\<rparr>)))"
    using ranges_inv_settle [OF inv]
    by (simp add: ranges_inv_def debouncedDateRangeValues_def currentStable_def)
  show ?thesis
    using fl d1 d2 by (simp add: em)
qed

text \<open>
  The example of the spec: the range 2024-01-05 to 2024-01-10 on \<open>createdAt\<close>
  has settled in a mounted component; the effect schedules the emission and the
  callback hands over the two entries (the first call, made on mount, carries the
  empty mapping). The same calls result from the run of the events.
\<close>

theorem date_range_emitted_witness:
  "calls_filters
     (run_timeout (handleFiltersUpdate
        ((filters_run
            [RunTimeout,
             DateRangeChange ''createdAt''
               \<lparr>range_from = Some \<lparr>date_year = 2024, date_month = 1, date_day = 5\<rparr>,
                range_to = Some \<lparr>date_year = 2024, date_month = 1, date_day = 10\<rparr>\<rparr>,
             FiltersAdvance 300]
            (filters_mount True []))
         \<lparr>dateRangeValues_debounce :=
            \<lparr>stable =
               [(''createdAt'',
                 \<lparr>range_from = Some \<lparr>date_year = 2024, date_month = 1, date_day = 5\<rparr>,
                  range_to = Some \<lparr>date_year = 2024, date_month = 1, date_day = 10\<rparr>\<rparr>)],
             pending = None\<rparr>\<rparr>))) =
     [[], [(''createdAtStart'', ''2024-01-05''), (''createdAtEnd'', ''2024-01-10'')]] \<and>
   is_YYYY_MM_DD ''2024-01-05'' \<and> is_YYYY_MM_DD ''2024-01-10'' \<and>
   calls_filters
     (filters_run
        [RunTimeout,
         DateRangeChange ''createdAt''
           \<lparr>range_from = Some \<lparr>date_year = 2024, date_month = 1, date_day = 5\<rparr>,
            range_to = Some \<lparr>date_year = 2024, date_month = 1, date_day = 10\<rparr>\<rparr>,
         FiltersAdvance 300, FireDateTimer, RunTimeout]
        (filters_mount True [])) =
     [[], [(''createdAtStart'', ''2024-01-05''), (''createdAtEnd'', ''2024-01-10'')]]"
proof -
  let ?f = "\<lparr>date_year = 2024, date_month = 1, date_day = 5\<rparr>"
  let ?t = "\<lparr>date_year = 2024, date_month = 1, date_day = 10\<rparr>"
  let ?r = "\<lparr>range_from = Some ?f, range_to = Some ?t\<rparr>"
  let ?s = "(filters_run [RunTimeout, DateRangeChange ''createdAt'' ?r, FiltersAdvance 300]
               (filters_mount True []))
            \<lparr>dateRangeValues_debounce := \<lparr>stable = [(''createdAt'', ?r)], pending = None\<rparr>\<rparr>"
  have f: "toLocaleDateString_enCA ?f = ''2024-01-05''" by code_simp
  have t: "toLocaleDateString_enCA ?t = ''2024-01-10''" by code_simp
  have d: "four_digit_date ?f" "four_digit_date ?t" by (simp_all add: four_digit_date_def)
  have h1: "onFiltersChange_given ?s" by code_simp
  have h2: "\<not> isUpdatingRef ?s" by code_simp
  have h3: "timeouts ?s = []" by code_simp
  have fv: "debouncedFilterValues ?s = []" by code_simp
  have dr: "debouncedDateRangeValues ?s = [(''createdAt'', ?r)]"
    by code_simp
  have all: "allFilters_of [] [(''createdAt'', ?r)] =
      [(''createdAtStart'', ''2024-01-05''), (''createdAtEnd'', ''2024-01-10'')]"
    by code_simp
  have prev: "previousFiltersRef ?s = ''{}''" by code_simp
  have h4: "JSON_stringify (allFilters_of (debouncedFilterValues ?s) (debouncedDateRangeValues ?s))
      \<noteq> previousFiltersRef ?s"
    unfolding fv dr all prev by code_simp
  have h5: "distinct (map fst (debouncedDateRangeValues ?s))" unfolding dr by simp
  have h6: "(''createdAt'', ?r) \<in> set (debouncedDateRangeValues ?s)" unfolding dr by simp
  have cs: "calls_filters ?s = [[]]" by code_simp
  have run: "calls_filters
     (filters_run
        [RunTimeout, DateRangeChange ''createdAt'' ?r, FiltersAdvance 300, FireDateTimer, RunTimeout]
        (filters_mount True [])) =
     [[], [(''createdAtStart'', ''2024-01-05''), (''createdAtEnd'', ''2024-01-10'')]]"
    by code_simp
  note th = date_range_emitted_as_two_keys [OF h1 h2 h3 h4 h5 h6, of ?f ?t]
  have em: "calls_filters (run_timeout (handleFiltersUpdate ?s)) =
      [[], [(''createdAtStart'', ''2024-01-05''), (''createdAtEnd'', ''2024-01-10'')]]"
    using th unfolding fv dr all cs by simp
  have shape: "is_YYYY_MM_DD ''2024-01-05''" "is_YYYY_MM_DD ''2024-01-10''"
    using th d f t by simp_all
  show ?thesis
    by (intro conjI em shape run)
qed
text \<open>
  The form \<open>YYYY-MM-DD\<close> does not hold for every pair of bounds: a \<open>Date\<close> in
  the year 999 is formatted with three year digits, and the mapping is emitted
  with these values.
\<close>

theorem short_year_not_YYYY_MM_DD:
  "calls_filters
     (filters_run
        [RunTimeout,
         DateRangeChange ''createdAt''
           \<lparr>range_from = Some \<lparr>date_year = 999, date_month = 1, date_day = 5\<rparr>,
            range_to = Some \<lparr>date_year = 999, date_month = 1, date_day = 10\<rparr>\<rparr>,
         FiltersAdvance 300, FireDateTimer, RunTimeout]
        (filters_mount True [])) =
     [[], [(''createdAtStart'', ''999-01-05''), (''createdAtEnd'', ''999-01-10'')]] \<and>
   \<not> is_YYYY_MM_DD ''999-01-05'' \<and> \<not> is_YYYY_MM_DD ''999-01-10''"
  by code_simp
subsection \<open>Suppression of repeated emissions\<close>

lemma json_nonempty: "JSON_stringify obj \<noteq> ''''"
  by (simp add: JSON_stringify_def)

lemma successively_snoc:
  "successively P (xs @ [x]) = (successively P xs \<and> (xs = [] \<or> P (last xs) x))"
  by (simp add: successively_append_iff)

lemma dedupe_inv_update: "dedupe_inv s \<Longrightarrow> dedupe_inv (handleFiltersUpdate s)"
  by (auto simp: dedupe_inv_def handleFiltersUpdate_def emission_chain_def Let_def
        successively_snoc json_differs_def json_nonempty simp flip: append_assoc)

lemma dedupe_inv_timeout: "dedupe_inv s \<Longrightarrow> dedupe_inv (run_timeout s)"
  by (auto simp: dedupe_inv_def run_timeout_def emission_chain_def split: list.splits)

lemma dedupe_inv_step: "dedupe_inv s \<Longrightarrow> dedupe_inv (filters_step e s)"
proof (cases e)
  case (FilterChange c v)
  assume "dedupe_inv s"
  then show ?thesis using FilterChange
    by (simp add: dedupe_inv_def handleFilterChange_def emission_chain_def Let_def)
next
  case (DateRangeChange c r)
  assume "dedupe_inv s"
  then show ?thesis using DateRangeChange
    by (simp add: dedupe_inv_def handleDateRangeChange_def emission_chain_def Let_def)
next
  case (FiltersAdvance d)
  assume "dedupe_inv s"
  then show ?thesis using FiltersAdvance
    by (simp add: dedupe_inv_def emission_chain_def)
next
  case FireFilterTimer
  assume a: "dedupe_inv s"
  then have "dedupe_inv (s\<lparr>filterValues_debounce := settle (filterValues_debounce s)\<rparr>)"
    by (simp add: dedupe_inv_def emission_chain_def)
  then show ?thesis using FireFilterTimer a
    by (simp add: dedupe_inv_update)
next
  case FireDateTimer
  assume a: "dedupe_inv s"
  then have "dedupe_inv (s\<lparr>dateRangeValues_debounce := settle (dateRangeValues_debounce s)\<rparr>)"
    by (simp add: dedupe_inv_def emission_chain_def)
  then show ?thesis using FireDateTimer a
    by (simp add: dedupe_inv_update)
next
  case Rerender
  assume "dedupe_inv s"
  then show ?thesis using Rerender by (simp add: dedupe_inv_update)
next
  case RunTimeout
  assume "dedupe_inv s"
  then show ?thesis using RunTimeout by (simp add: dedupe_inv_timeout)
next
  case Cleanup
  assume "dedupe_inv s"
  then show ?thesis using Cleanup by (simp add: dedupe_inv_def emission_chain_def)
qed

lemma dedupe_inv_run: "dedupe_inv s \<Longrightarrow> dedupe_inv (filters_run es s)"
  by (induction es arbitrary: s) (simp_all add: dedupe_inv_step)

lemma dedupe_inv_mount: "dedupe_inv (filters_mount given columns)"
  unfolding filters_mount_def
  by (rule dedupe_inv_update) (simp add: dedupe_inv_def emission_chain_def)

lemma successively_appendD1: "successively P (xs @ ys) \<Longrightarrow> successively P xs"
  by (simp add: successively_append_iff)
text \<open>
  What the comparison of \<open>handleFiltersUpdate\<close> does guarantee: after any
  sequence of events on a mounted filter component, two successive calls of
  \<open>onFiltersChange\<close> never carry mappings with the same JSON serialisation, that
  is with the same entries in the same key order.
\<close>

theorem no_successive_equal_serialisations:
  "successively (\<lambda>a b. JSON_stringify a \<noteq> JSON_stringify b)
     (calls_filters (filters_run es (filters_mount given columns)))"
proof -
  have "dedupe_inv (filters_run es (filters_mount given columns))"
    by (rule dedupe_inv_run [OF dedupe_inv_mount])
  then have "successively json_differs
      (calls_filters (filters_run es (filters_mount given columns)))"
    unfolding dedupe_inv_def emission_chain_def by (blast dest: successively_appendD1)
  then show ?thesis
    by (simp add: json_differs_def [abs_def])
qed

text \<open>
  C10, evaluated on the code. The comparison is on the serialisation, which
  depends on the key order. Two select filters are set and emitted; then the
  first one is removed and set again within one quiescence window, which moves
  its key behind the other. The next call of \<open>onFiltersChange\<close> carries the same
  mapping from keys to values as the previous one: the callback fires although
  the filters have not changed.
\<close>

theorem reordered_mapping_emitted_twice:
  "calls_filters
     (filters_run
        [RunTimeout,
         FilterChange ''status'' (Single ''active''), FilterChange ''role'' (Single ''admin''),
         FiltersAdvance 300, FireFilterTimer, RunTimeout,
         FilterChange ''status'' (Single ''''), FiltersAdvance 100,
         FilterChange ''status'' (Single ''active''),
         FiltersAdvance 300, FireFilterTimer, RunTimeout]
        (filters_mount True [])) =
     [[],
      [(''status'', ''active''), (''role'', ''admin'')],
      [(''role'', ''admin''), (''status'', ''active'')]] \<and>
   map_of [(''status'', ''active''), (''role'', ''admin'')] =
   map_of [(''role'', ''admin''), (''status'', ''active'')]"
proof
  show "calls_filters
     (filters_run
        [RunTimeout,
         FilterChange ''status'' (Single ''active''), FilterChange ''role'' (Single ''admin''),
         FiltersAdvance 300, FireFilterTimer, RunTimeout,
         FilterChange ''status'' (Single ''''), FiltersAdvance 100,
         FilterChange ''status'' (Single ''active''),
         FiltersAdvance 300, FireFilterTimer, RunTimeout]
        (filters_mount True [])) =
     [[],
      [(''status'', ''active''), (''role'', ''admin'')],
      [(''role'', ''admin''), (''status'', ''active'')]]"
    by code_simp
  show "map_of [(''status'', ''active''), (''role'', ''admin'')] =
        map_of [(''role'', ''admin''), (''status'', ''active'')]"
    by (auto simp: fun_eq_iff)
qed

section \<open>Properties of the search\<close>

lemma activeColumns_time_step:
  "time_event e \<Longrightarrow> activeColumns (search_step e s) = activeColumns s"
  by (cases e) (simp_all add: activeColumns_def active_search_columns_def search_effect_def)

lemma time_run_idle:
  "pending (searchFilters_debounce s) = None \<Longrightarrow> list_all time_event es \<Longrightarrow>
   calls_search (search_run es s) = calls_search s"
proof (induction es arbitrary: s)
  case Nil
  then show ?case by simp
next
  case (Cons e es)
  from Cons.prems have te: "time_event e" and rest: "list_all time_event es" by simp_all
  have "pending (searchFilters_debounce (search_step e s)) = None \<and>
        calls_search (search_step e s) = calls_search s"
    using te Cons.prems(1) by (cases e) (simp_all add: due_def)
  then show ?case using Cons.IH [OF _ rest] by simp
qed
lemma time_run_pending:
  "pending (searchFilters_debounce s) = Some (deadline, val) \<Longrightarrow> list_all time_event es \<Longrightarrow>
   \<exists>ems. calls_search (search_run es s) = calls_search s @ ems \<and> length ems \<le> 1 \<and>
         list_all (gated deadline (first_search_value val) (activeColumns s)) ems"
proof (induction es arbitrary: s)
  case Nil
  then show ?case by simp
next
  case (Cons e es)
  from Cons.prems have te: "time_event e" and rest: "list_all time_event es" by simp_all
  show ?case
  proof (cases "e = FireSearchTimer \<and> due (search_clock s) (searchFilters_debounce s)")
    case True
    let ?s' = "search_step e s"
    have dl: "deadline \<le> search_clock s"
      using True Cons.prems(1) by (simp add: due_def)
    have idle: "pending (searchFilters_debounce ?s') = None"
      using True Cons.prems(1) by (simp add: search_effect_def settle_def)
    have calls: "calls_search ?s' = calls_search s @
        (if onSearchChange_given s
         then [(search_clock s, first_search_value val, activeColumns s)] else [])"
      using True Cons.prems(1)
      by (simp add: search_effect_def settle_def debouncedSearchFilters_def currentStable_def
            activeColumns_def active_search_columns_def)
    have "calls_search (search_run (e # es) s) = calls_search ?s'"
      using time_run_idle [OF idle rest] by simp
    with calls dl show ?thesis
      by (simp add: gated_def)
  next
    case False
    let ?s' = "search_step e s"
    have same: "pending (searchFilters_debounce ?s') = Some (deadline, val) \<and>
          calls_search ?s' = calls_search s"
      using False te Cons.prems(1) by (cases e) simp_all
    have ac: "activeColumns ?s' = activeColumns s"
      by (rule activeColumns_time_step [OF te])
    from same Cons.IH [of ?s', OF _ rest] ac show ?thesis by simp
  qed
qed
text \<open>
  C1, as the code has it. An edit of a search filter calls \<open>onSearchChange\<close>
  only through the debounce: the edit itself makes no call, and while only time
  passes after it at most one call follows, made no earlier than 300 time units
  after the edit, with the first non-blank value of the edited filters and the
  ids of the active columns. Clearing the search is not gated: with a callback
  supplied, \<open>handleClearSearch\<close> calls \<open>onSearchChange("", [])\<close> at the time of
  the click. Without any edit, the passing of time after the mount causes no call.
\<close>

theorem edits_are_debounced_clear_is_not:
  assumes "list_all time_event es"
  shows "calls_search (handleSearchFilter c v s) = calls_search s \<and>
    (\<exists>ems. calls_search (search_run es (handleSearchFilter c v s)) = calls_search s @ ems \<and>
       length ems \<le> 1 \<and>
       list_all (gated (search_clock s + 300)
                   (first_search_value (obj_set c v (searchFilters s))) (activeColumns s)) ems) \<and>
    calls_search (handleClearSearch (s\<lparr>onSearchChange_given := True\<rparr>)) =
      calls_search s @ [(search_clock s, '''', [])] \<and>
    calls_search (search_run es (search_mount columns given table_columns searchValue)) =
      calls_search (search_mount columns given table_columns searchValue)"
proof -
  let ?s1 = "handleSearchFilter c v s"
  have p: "pending (searchFilters_debounce ?s1) =
      Some (search_clock s + 300, obj_set c v (searchFilters s))"
    by (simp add: handleSearchFilter_def observe_def quiescence_window_def Let_def)
  have c1: "calls_search ?s1 = calls_search s"
    by (simp add: handleSearchFilter_def Let_def)
  have a1: "activeColumns ?s1 = activeColumns s"
    by (simp add: handleSearchFilter_def Let_def activeColumns_def active_search_columns_def)
  have idle: "pending (searchFilters_debounce
      (search_mount columns given table_columns searchValue)) = None"
    by (simp add: search_mount_def search_effect_def debounce_init_def)
  from time_run_pending [OF p assms] time_run_idle [OF idle assms] c1 a1
  show ?thesis by (simp add: handleClearSearch_def Let_def)
qed
text \<open>
  An instance: a component with one search column, the user types \<open>a\<close>, 300 time
  units pass and the timer runs.
\<close>

theorem edits_gated_witness:
  "list_all time_event [SearchAdvance 300, FireSearchTimer] \<and>
   (\<exists>ems. calls_search
       (search_run [SearchAdvance 300, FireSearchTimer]
          (handleSearchFilter ''name'' ''a''
             (search_mount [\<lparr>column = ''name'', label = ''Name''\<rparr>] True [] ''''))) =
       calls_search (search_mount [\<lparr>column = ''name'', label = ''Name''\<rparr>] True [] '''') @ ems \<and>
     length ems \<le> 1 \<and>
     list_all
       (gated (search_clock (search_mount [\<lparr>column = ''name'', label = ''Name''\<rparr>] True [] '''') + 300)
          (first_search_value
             (obj_set ''name'' ''a''
                (searchFilters (search_mount [\<lparr>column = ''name'', label = ''Name''\<rparr>] True [] ''''))))
          (activeColumns (search_mount [\<lparr>column = ''name'', label = ''Name''\<rparr>] True [] '''')))
       ems) \<and>
   calls_search
     (search_run [SearchAdvance 300, FireSearchTimer]
        (handleSearchFilter ''name'' ''a''
           (search_mount [\<lparr>column = ''name'', label = ''Name''\<rparr>] True [] ''''))) =
     [(0, '''', [''name'']), (300, ''a'', [''name''])]"
proof -
  have h: "list_all time_event [SearchAdvance 300, FireSearchTimer]" by simp
  note th = edits_are_debounced_clear_is_not
    [OF h, of "''name''" "''a''" "search_mount [\<lparr>column = ''name'', label = ''Name''\<rparr>] True [] ''''"]
  have run: "calls_search
     (search_run [SearchAdvance 300, FireSearchTimer]
        (handleSearchFilter ''name'' ''a''
           (search_mount [\<lparr>column = ''name'', label = ''Name''\<rparr>] True [] ''''))) =
     [(0, '''', [''name'']), (300, ''a'', [''name''])]"
    by code_simp
  show ?thesis
    by (intro conjI h run conjunct1 [OF conjunct2 [OF th]])
qed

text \<open>
  The claim as stated fails on the clear path. The user types \<open>a\<close> at time 0 and
  clicks the clear button at time 100: the countdown started by the edit ends at
  300 and has not settled, yet \<open>onSearchChange\<close> is called at time 100.
\<close>

theorem clear_emits_before_debounce_settles:
  "pending (searchFilters_debounce
      (search_run [Edit ''name'' ''a'', SearchAdvance 100]
         (search_mount [\<lparr>column = ''name'', label = ''Name''\<rparr>] True [] ''''))) =
     Some (300, [(''name'', ''a'')]) \<and>
   \<not> due 100 (searchFilters_debounce
      (search_run [Edit ''name'' ''a'', SearchAdvance 100]
         (search_mount [\<lparr>column = ''name'', label = ''Name''\<rparr>] True [] ''''))) \<and>
   calls_search
      (search_run [Edit ''name'' ''a'', SearchAdvance 100]
         (search_mount [\<lparr>column = ''name'', label = ''Name''\<rparr>] True [] '''')) =
     [(0, '''', [''name''])] \<and>
   calls_search
      (search_run [Edit ''name'' ''a'', SearchAdvance 100, Clear]
         (search_mount [\<lparr>column = ''name'', label = ''Name''\<rparr>] True [] '''')) =
     [(0, '''', [''name'']), (100, '''', [])]"
  by code_simp

text \<open>
  C6, evaluated on the code. Two search columns are configured and only the first
  is active. The user types \<open>a\<close>; after the debounce the search component calls
  its \<open>onSearchChange\<close> with the active column \<open>name\<close>, and the table's
  \<open>handleSearchChange\<close> calls the caller's \<open>onSearchChange\<close> with both configured
  columns.
\<close>

theorem server_side_search_forwards_all_columns:
  "activeColumns
     (search_run [Edit ''name'' ''a'', SearchAdvance 300, FireSearchTimer]
        (search_mount
           [\<lparr>column = ''name'', label = ''Name''\<rparr>, \<lparr>column = ''email'', label = ''Email''\<rparr>]
           True [] '''')) = [''name''] \<and>
   calls_search
     (search_run [Edit ''name'' ''a'', SearchAdvance 300, FireSearchTimer]
        (search_mount
           [\<lparr>column = ''name'', label = ''Name''\<rparr>, \<lparr>column = ''email'', label = ''Email''\<rparr>]
           True [] '''')) = [(0, '''', [''name'']), (300, ''a'', [''name''])] \<and>
   calls_onSearchChange
     (forward_search_calls
        (calls_search
           (search_run [Edit ''name'' ''a'', SearchAdvance 300, FireSearchTimer]
              (search_mount
                 [\<lparr>column = ''name'', label = ''Name''\<rparr>, \<lparr>column = ''email'', label = ''Email''\<rparr>]
                 True [] '''')))
        (table_mount
           \<lparr>page = 1, pageSize = 10, totalItems = 0, totalPages = 0,
            hasNextPage = False, hasPreviousPage = False\<rparr>
           [\<lparr>column = ''name'', label = ''Name''\<rparr>, \<lparr>column = ''email'', label = ''Email''\<rparr>]
           False True False [])) =
     [('''', [''name'', ''email'']), (''a'', [''name'', ''email''])]"
  by code_simp

end
